theory Spec2Isabelle
  imports Complex_Main "HOL-Library.Char_ord" "HOL-Library.List_Lexorder" "HOL-Library.AList"
begin

section \<open>Price series\<close>

text \<open>
  A \<^verbatim>\<open>pd.Series\<close> of closing prices is a list of rows in index order. A row holds
  the index label (the session date, of any type \<open>'d\<close>) and the value, where \<open>None\<close> is
  the missing value (NaN). Present prices are real numbers: the model covers finite
  prices, and the infinities of the float type are outside it.
\<close>

type_synonym 'd series = "('d \<times> real option) list"

text \<open>\<^verbatim>\<open>Series.dropna()\<close>: the rows whose value is present, in order.\<close>

definition dropna :: "'d series \<Rightarrow> 'd series" where
  "dropna s = filter (\<lambda>p. snd p \<noteq> None) s"

text \<open>
  \<^verbatim>\<open>Series.tail(n)\<close> is \<^verbatim>\<open>iloc[0:0]\<close> for \<open>n = 0\<close> and \<^verbatim>\<open>iloc[-n:]\<close>
  otherwise: the last \<open>n\<close> rows (all of them when there are fewer) for a positive \<open>n\<close>,
  and all rows but the first \<open>-n\<close> for a negative one.
\<close>

definition tail :: "int \<Rightarrow> 'd series \<Rightarrow> 'd series" where
  "tail n s =
     (if n = 0 then []
      else if 0 < n then drop (length s - nat n) s
      else drop (nat (- n)) s)"

text \<open>Subtraction of values: missing as soon as one operand is.\<close>

fun sub_na :: "real option \<Rightarrow> real option \<Rightarrow> real option" where
  "sub_na (Some a) (Some b) = Some (a - b)"
| "sub_na _ _ = None"

text \<open>
  \<^verbatim>\<open>Series.diff()\<close>: the first row becomes missing, every other row becomes its value
  minus the value of the row before it. The index is kept.
\<close>

fun diff_from :: "real option \<Rightarrow> 'd series \<Rightarrow> 'd series" where
  "diff_from prev [] = []"
| "diff_from prev ((d, v) # ps) = (d, sub_na v prev) # diff_from v ps"

fun diff :: "'d series \<Rightarrow> 'd series" where
  "diff [] = []"
| "diff ((d, v) # ps) = (d, None) # diff_from v ps"

text \<open>\<^verbatim>\<open>series < 0\<close>, row by row; a comparison with a missing value is false.\<close>

definition lt_zero :: "'d series \<Rightarrow> ('d \<times> bool) list" where
  "lt_zero s = map (\<lambda>(d, v). (d, case v of None \<Rightarrow> False | Some x \<Rightarrow> x < 0)) s"

text \<open>\<^verbatim>\<open>.all()\<close> of a boolean series; true on the empty one.\<close>

definition all_pd :: "('d \<times> bool) list \<Rightarrow> bool" where
  "all_pd bs = list_all snd bs"

section \<open>Downtrend detector\<close>

text \<open>
  \<^verbatim>\<open>
  def is_consecutive_down(closes, n):
      closes = closes.dropna()
      if len(closes) < n + 1:
          return False
      diffs = closes.tail(n + 1).diff().dropna()
      return (diffs < 0).all()
  \<close>
\<close>

definition is_consecutive_down :: "'d series \<Rightarrow> int \<Rightarrow> bool" where
  "is_consecutive_down closes n =
     (let closes = dropna closes in
      if int (length closes) < n + 1 then False
      else
        let diffs = dropna (diff (tail (n + 1) closes))
        in all_pd (lt_zero diffs))"

text \<open>The prices of the rows that are not missing, in order: what the claims call the
  valid points of a series.\<close>

definition valid_prices :: "'d series \<Rightarrow> real list" where
  "valid_prices s = List.map_filter snd s"

subsection \<open>The detector on a store of objects\<close>

text \<open>
  In the program a series is an object and \<^verbatim>\<open>closes\<close> is a reference to it. The
  second embedding makes that explicit: a store maps addresses to series, \<open>used\<close> counts
  the addresses handed out so far, and each of \<^verbatim>\<open>dropna\<close>, \<^verbatim>\<open>tail\<close> and
  \<^verbatim>\<open>diff\<close> reads its operand and puts its result in a new object (none of them is
  called with \<^verbatim>\<open>inplace=True\<close>). The assignment \<^verbatim>\<open>closes = closes.dropna()\<close>
  rebinds the local name only.
\<close>

record 'd store =
  objs :: "nat \<Rightarrow> 'd series"
  used :: nat

definition alloc :: "'d series \<Rightarrow> 'd store \<Rightarrow> nat \<times> 'd store" where
  "alloc s h = (used h, h\<lparr>objs := (objs h)(used h := s), used := Suc (used h)\<rparr>)"

definition is_consecutive_down_st :: "nat \<Rightarrow> int \<Rightarrow> 'd store \<Rightarrow> bool \<times> 'd store" where
  "is_consecutive_down_st closes n h =
     (let (closes, h) = alloc (dropna (objs h closes)) h in
      if int (length (objs h closes)) < n + 1 then (False, h)
      else
        let (t, h) = alloc (tail (n + 1) (objs h closes)) h;
            (d, h) = alloc (diff (objs h t)) h;
            (diffs, h) = alloc (dropna (objs h d)) h
        in (all_pd (lt_zero (objs h diffs)), h))"

section \<open>Ticker set loader\<close>

text \<open>
  Text is a list of characters, each a code point below 256. \<^verbatim>\<open>str.isspace\<close> holds
  on these code points for tab, line feed, vertical tab, form feed, carriage return, the
  four separators 28 to 31, space, next line (133) and no-break space (160).
\<close>

definition isspace :: "char \<Rightarrow> bool" where
  "isspace c = (of_char c \<in> {9, 10, 11, 12, 13, 28, 29, 30, 31, 32, 133, 160 :: nat})"

text \<open>\<^verbatim>\<open>str.strip()\<close>: leading and trailing whitespace removed.\<close>

definition strip :: "string \<Rightarrow> string" where
  "strip s = rev (dropWhile isspace (rev (dropWhile isspace s)))"

text \<open>\<^verbatim>\<open>s.split(sep)\<close> for a separator of one character: the pieces between the
  separators, empty ones included; the empty text gives one empty piece.\<close>

fun split_on :: "char \<Rightarrow> string \<Rightarrow> string list" where
  "split_on sep [] = [[]]"
| "split_on sep (c # cs) =
     (if c = sep then [] # split_on sep cs
      else (case split_on sep cs of [] \<Rightarrow> [[c]] | w # ws \<Rightarrow> (c # w) # ws))"

text \<open>Iterating over a text file: its lines, each keeping its line feed; a last line
  without one is a line too, and the empty file has no line.\<close>

fun file_lines :: "string \<Rightarrow> string list" where
  "file_lines [] = []"
| "file_lines (c # cs) =
     (if c = CHR 0x0A then [c] # file_lines cs
      else (case file_lines cs of [] \<Rightarrow> [[c]] | l # ls \<Rightarrow> (c # l) # ls))"

definition startswith :: "string \<Rightarrow> string \<Rightarrow> bool" where
  "startswith s p = (take (length p) s = p)"

datatype error = SystemExit string | KeyError string | IndexError | OSError

definition default_tickers :: "string list" where
  "default_tickers = [''AAPL'', ''MSFT'', ''TSLA'', ''AMZN'', ''GOOGL'']"

text \<open>
  What the loader finds under the name \<^verbatim>\<open>tickers.txt\<close>: nothing
  (\<^verbatim>\<open>os.path.exists\<close> is false); a file that reads as the given text; or something
  that exists and raises the given exception when it is opened or read (a directory, a
  file without read permission).
\<close>

datatype tickers_txt = Absent | Readable string | Unreadable error

text \<open>
  \<^verbatim>\<open>
  def load_tickers(cli_tickers):
      tickers = []
      if cli_tickers.strip():
          tickers = [t.strip() for t in cli_tickers.split(",") if t.strip()]
      elif os.path.exists("tickers.txt"):
          with open("tickers.txt") as f:
              tickers = [line.strip() for line in f if line.strip() and not line.startswith("#")]
      else:
          tickers = ["AAPL", "MSFT", "TSLA", "AMZN", "GOOGL"]
      if not tickers:
          raise SystemExit("No tickers provided.")
      return sorted(set(tickers))
  \<close>
  \<open>resolved_tickers\<close> is the list \<^verbatim>\<open>tickers\<close> as the three branches leave it, or
  the exception that escapes from reading the file. \<^verbatim>\<open>sorted(set(tickers))\<close> is the
  list of the distinct tickers in ascending order; texts compare lexicographically by
  code point.
\<close>

definition resolved_tickers :: "string \<Rightarrow> tickers_txt \<Rightarrow> error + string list" where
  "resolved_tickers cli_tickers tickers_txt =
     (if strip cli_tickers \<noteq> [] then
        Inr [strip t. t \<leftarrow> split_on (CHR '','') cli_tickers, strip t \<noteq> []]
      else
        (case tickers_txt of
           Readable f \<Rightarrow>
             Inr [strip line. line \<leftarrow> file_lines f, strip line \<noteq> [] \<and> \<not> startswith line ''#'']
         | Unreadable e \<Rightarrow> Inl e
         | Absent \<Rightarrow> Inr default_tickers))"

definition load_tickers :: "string \<Rightarrow> tickers_txt \<Rightarrow> error + string list" where
  "load_tickers cli_tickers tickers_txt =
     (case resolved_tickers cli_tickers tickers_txt of
        Inl e \<Rightarrow> Inl e
      | Inr tickers \<Rightarrow>
          if tickers = [] then Inl (SystemExit ''No tickers provided.'')
          else Inr (sort (remdups tickers)))"

text \<open>
  The start of \<^verbatim>\<open>main\<close>: \<^verbatim>\<open>tickers = load_tickers(args.tickers)\<close> comes first, the
  fetch \<^verbatim>\<open>yf.download(tickers=tickers, ...)\<close> second. A run is the list of its
  observable events and its exit status. What \<^verbatim>\<open>main\<close> does with the answer of the
  provider is the parameter \<open>rest\<close>. An exception that escapes \<^verbatim>\<open>main\<close> ends the run
  with status 1: a \<^verbatim>\<open>SystemExit\<close> carrying a text writes that text to the error
  stream, any other exception writes its traceback.
\<close>

datatype event =
  Download "string list" | Stderr string | Traceback error | Stdout string | Email string

fun uncaught :: "error \<Rightarrow> event list \<times> int" where
  "uncaught (SystemExit msg) = ([Stderr msg], 1)"
| "uncaught e = ([Traceback e], 1)"

definition main :: "string \<Rightarrow> tickers_txt \<Rightarrow> (string list \<Rightarrow> event list \<times> int) \<Rightarrow> event list \<times> int" where
  "main cli_tickers tickers_txt rest =
     (case load_tickers cli_tickers tickers_txt of
        Inl e \<Rightarrow> uncaught e
      | Inr tickers \<Rightarrow>
          (let (events, status) = rest tickers in (Download tickers # events, status)))"

text \<open>A continuation that reports nothing and ends with status 0, for examples.\<close>

definition silent :: "string list \<Rightarrow> event list \<times> int" where
  "silent tickers = ([], 0)"

fun is_download :: "event \<Rightarrow> bool" where
  "is_download (Download _) = True"
| "is_download _ = False"

definition fetch_attempted :: "event list \<Rightarrow> bool" where
  "fetch_attempted events = list_ex is_download events"

text \<open>
  The resolution as the specification words it: the explicit input when it has a
  token left after splitting on commas, trimming and dropping empty tokens; else the
  symbol file when it exists, without its blank and its \<open>#\<close>-prefixed lines; else the
  default set. A file that cannot be read gives no symbol.
\<close>

definition explicit_symbols :: "string \<Rightarrow> string list" where
  "explicit_symbols cli = filter (\<lambda>t. t \<noteq> []) (map strip (split_on (CHR '','') cli))"

definition file_symbols :: "string \<Rightarrow> string list" where
  "file_symbols f =
     map strip (filter (\<lambda>l. \<not> (strip l = [] \<or> startswith l ''#'')) (file_lines f))"

definition spec_resolved :: "string \<Rightarrow> tickers_txt \<Rightarrow> string list" where
  "spec_resolved cli tickers_txt =
     (if explicit_symbols cli \<noteq> [] then explicit_symbols cli
      else (case tickers_txt of
              Readable f \<Rightarrow> file_symbols f
            | Unreadable e \<Rightarrow> []
            | Absent \<Rightarrow> default_tickers))"

section \<open>Series normalizer and match collection\<close>

text \<open>
  The fetch result is a data frame: its columns are keyed by (ticker, field) when
  \<^verbatim>\<open>data.columns\<close> is a \<^verbatim>\<open>MultiIndex\<close>, and by field otherwise. The dictionary
  \<^verbatim>\<open>closes_by_ticker\<close> is an association list in insertion order, which is the
  order \<^verbatim>\<open>items()\<close> iterates in.
  \<^verbatim>\<open>
  closes_by_ticker = {}
  if isinstance(data.columns, pd.MultiIndex):
      for t in tickers:
          if (t, "Close") in data.columns:
              closes_by_ticker[t] = data[(t, "Close")].dropna()
  else:
      closes_by_ticker[tickers[0]] = data["Close"].dropna()
  \<close>
  In the last assignment the right-hand side is evaluated first, so a missing
  \<^verbatim>\<open>Close\<close> column raises before an empty ticker list does.
\<close>

datatype 'd dataframe =
  MultiFrame "string \<times> string \<Rightarrow> 'd series option"
| FlatFrame "string \<Rightarrow> 'd series option"

fun collect_closes ::
  "(string \<times> string \<Rightarrow> 'd series option) \<Rightarrow> string list \<Rightarrow> (string \<times> 'd series) list
     \<Rightarrow> (string \<times> 'd series) list" where
  "collect_closes cols [] m = m"
| "collect_closes cols (t # ts) m =
     collect_closes cols ts
       (case cols (t, ''Close'') of
          Some col \<Rightarrow> AList.update t (dropna col) m
        | None \<Rightarrow> m)"

definition closes_by_ticker ::
  "string list \<Rightarrow> 'd dataframe \<Rightarrow> error + (string \<times> 'd series) list" where
  "closes_by_ticker tickers data =
     (case data of
        MultiFrame cols \<Rightarrow> Inr (collect_closes cols tickers [])
      | FlatFrame cols \<Rightarrow>
          (case cols ''Close'' of
             None \<Rightarrow> Inl (KeyError ''Close'')
           | Some col \<Rightarrow>
               (case tickers of
                  [] \<Rightarrow> Inl IndexError
                | t # _ \<Rightarrow> Inr (AList.update t (dropna col) []))))"

text \<open>
  \<^verbatim>\<open>
  matches = []
  for t, series in closes_by_ticker.items():
      if is_consecutive_down(series, n=args.days_check):
          matches.append((t, series))
  \<close>
\<close>

fun collect_matches ::
  "int \<Rightarrow> (string \<times> 'd series) list \<Rightarrow> (string \<times> 'd series) list
     \<Rightarrow> (string \<times> 'd series) list" where
  "collect_matches n [] matches = matches"
| "collect_matches n ((t, series) # rest) matches =
     collect_matches n rest
       (if is_consecutive_down series n then matches @ [(t, series)] else matches)"

definition main_matches :: "(string \<times> 'd series) list \<Rightarrow> int \<Rightarrow> (string \<times> 'd series) list" where
  "main_matches closes n = collect_matches n closes []"

definition no_missing :: "'d series \<Rightarrow> bool" where
  "no_missing s = list_all (\<lambda>p. snd p \<noteq> None) s"

section \<open>Report builder\<close>

text \<open>\<^verbatim>\<open>str\<close> of an integer: its decimal digits, after a minus sign when negative.\<close>

fun digits :: "nat \<Rightarrow> string" where
  "digits n =
     (if n < 10 then [char_of (48 + n)]
      else digits (n div 10) @ [char_of (48 + n mod 10)])"

declare digits.simps [simp del]

definition str_int :: "int \<Rightarrow> string" where
  "str_int i = (if i < 0 then CHR ''-'' # digits (nat (- i)) else digits (nat i))"

text \<open>
  \<^verbatim>\<open>
  def build_email_html(matches, last_n_to_show):
      if not matches:
          return None
      rows = []
      for tkr, series in matches:
          closes = series.dropna().tail(last_n_to_show)
          cells = "".join(
              f"<div>{idx.strftime('%Y-%m-%d')}: {val:,.2f}</div>" for idx, val in closes.items()
          )
          rows.append(f"<tr><td><b>{tkr}</b></td><td>{cells}</td></tr>")
      table = f"""..."""
      return f"""..."""
  \<close>
  The two renderings that depend on the calendar and on the float format are parameters:
  \<open>strftime\<close> renders a date as year, month and day, \<open>fmt\<close> renders a price with
  grouped thousands and two decimals. A missing value would render as \<^verbatim>\<open>nan\<close>.
\<close>

definition cell :: "('d \<Rightarrow> string) \<Rightarrow> (real \<Rightarrow> string) \<Rightarrow> 'd \<times> real option \<Rightarrow> string" where
  "cell strftime fmt p =
     ''<div>'' @ strftime (fst p) @ '': '' @
     (case snd p of Some val \<Rightarrow> fmt val | None \<Rightarrow> ''nan'') @ ''</div>''"

definition row ::
  "('d \<Rightarrow> string) \<Rightarrow> (real \<Rightarrow> string) \<Rightarrow> int \<Rightarrow> string \<times> 'd series \<Rightarrow> string" where
  "row strftime fmt last_n_to_show m =
     (let closes = tail last_n_to_show (dropna (snd m));
          cells = concat (map (cell strftime fmt) closes)
      in ''<tr><td><b>'' @ fst m @ ''</b></td><td>'' @ cells @ ''</td></tr>'')"

definition table :: "string list \<Rightarrow> int \<Rightarrow> string" where
  \<open>table rows last_n_to_show =
     ''\<newline>'' @
     ''    <table border="1" cellpadding="6" cellspacing="0" style="border-collapse:collapse;">\<newline>'' @
     ''      <thead>\<newline>'' @
     ''        <tr><th>Ticker</th><th>Last '' @ str_int last_n_to_show @ '' closes</th></tr>\<newline>'' @
     ''      </thead>\<newline>'' @
     ''      <tbody>\<newline>'' @
     ''        '' @ concat rows @ ''\<newline>'' @
     ''      </tbody>\<newline>'' @
     ''    </table>\<newline>'' @
     ''    ''\<close>

definition build_email_html ::
  "('d \<Rightarrow> string) \<Rightarrow> (real \<Rightarrow> string) \<Rightarrow> (string \<times> 'd series) list \<Rightarrow> int \<Rightarrow> string option" where
  \<open>build_email_html strftime fmt matches last_n_to_show =
     (if matches = [] then None
      else
        let rows = map (row strftime fmt last_n_to_show) matches
        in Some (
          ''\<newline>'' @
          ''    <html>\<newline>'' @
          ''    <body>\<newline>'' @
          ''      <p>The following tickers have <b>7 consecutive down days</b> (by daily close):</p>\<newline>'' @
          ''      '' @ table rows last_n_to_show @ ''\<newline>'' @
          ''      <p style="font-size:12px;color:#666;">\<newline>'' @
          ''        Source: Yahoo Finance (via yfinance). Trading days only; weekends/holidays automatically skipped.\<newline>'' @
          ''      </p>\<newline>'' @
          ''    </body>\<newline>'' @
          ''    </html>\<newline>'' @
          ''    ''))\<close>

section \<open>Properties of the detector\<close>

lemma snd_dropna: "map snd (dropna s) = map Some (valid_prices s)"
  by (induction s) (auto simp: dropna_def valid_prices_def List.map_filter_simps)

lemma length_dropna: "length (dropna s) = length (valid_prices s)"
  using arg_cong [OF snd_dropna, of length s] by simp

lemma all_diff_from:
  "map snd t = map Some vs \<Longrightarrow>
   all_pd (lt_zero (dropna (diff_from (Some p) t))) = successively (\<lambda>a b. b - a < 0) (p # vs)"
proof (induction t arbitrary: p vs)
  case Nil
  then show ?case by (simp add: all_pd_def lt_zero_def dropna_def)
next
  case (Cons r t)
  then obtain d v vs' where r: "r = (d, Some v)" and vs: "vs = v # vs'" and t: "map snd t = map Some vs'"
    by (cases r; cases vs) auto
  have "all_pd (lt_zero (dropna (diff_from (Some p) (r # t)))) =
        (v - p < 0 \<and> all_pd (lt_zero (dropna (diff_from (Some v) t))))"
    by (simp add: r all_pd_def lt_zero_def dropna_def)
  with Cons.IH [OF t] show ?case by (simp add: vs)
qed

lemma all_diff:
  "map snd t = map Some vs \<Longrightarrow>
   all_pd (lt_zero (dropna (diff t))) = successively (\<lambda>a b. b - a < 0) vs"
proof (cases t)
  case Nil
  then show "map snd t = map Some vs \<Longrightarrow> ?thesis" by (simp add: all_pd_def lt_zero_def dropna_def)
next
  case (Cons r t')
  assume m: "map snd t = map Some vs"
  with Cons obtain d v vs' where r: "r = (d, Some v)" and vs: "vs = v # vs'" and t: "map snd t' = map Some vs'"
    by (cases r; cases vs) auto
  have "all_pd (lt_zero (dropna (diff t))) = all_pd (lt_zero (dropna (diff_from (Some v) t')))"
    by (simp add: Cons r all_pd_def lt_zero_def dropna_def)
  with all_diff_from [OF t] show ?thesis by (simp add: vs)
qed

lemma successively_nth:
  "successively P xs \<longleftrightarrow> (\<forall>i. 0 < i \<and> i < length xs \<longrightarrow> P (xs ! (i - 1)) (xs ! i))"
proof (induction P xs rule: successively.induct)
  case (3 P x y xs)
  show ?case
  proof
    assume a: "successively P (x # y # xs)"
    show "\<forall>i. 0 < i \<and> i < length (x # y # xs) \<longrightarrow> P ((x # y # xs) ! (i - 1)) ((x # y # xs) ! i)"
    proof (intro allI impI)
      fix i assume i: "0 < i \<and> i < length (x # y # xs)"
      show "P ((x # y # xs) ! (i - 1)) ((x # y # xs) ! i)"
      proof (cases "i = 1")
        case True with a show ?thesis by simp
      next
        case False
        with i obtain j where j: "i = Suc j" "0 < j" "j < length (y # xs)" by (cases i) auto
        with a 3 have "P ((y # xs) ! (j - 1)) ((y # xs) ! j)" by simp
        with j show ?thesis by simp
      qed
    qed
  next
    assume a: "\<forall>i. 0 < i \<and> i < length (x # y # xs) \<longrightarrow> P ((x # y # xs) ! (i - 1)) ((x # y # xs) ! i)"
    from a [rule_format, of 1] have "P x y" by simp
    moreover have "\<forall>i. 0 < i \<and> i < length (y # xs) \<longrightarrow> P ((y # xs) ! (i - 1)) ((y # xs) ! i)"
    proof (intro allI impI)
      fix i assume "0 < i \<and> i < length (y # xs)"
      with a [rule_format, of "Suc i"] show "P ((y # xs) ! (i - 1)) ((y # xs) ! i)" by simp
    qed
    ultimately show "successively P (x # y # xs)" using 3 by simp
  qed
qed simp_all

lemma successively_drop_nth:
  "k \<le> length xs \<Longrightarrow> successively P (drop k xs) \<longleftrightarrow> (\<forall>i. k < i \<and> i < length xs \<longrightarrow> P (xs ! (i - 1)) (xs ! i))"
proof -
  assume k: "k \<le> length xs"
  have "successively P (drop k xs) \<longleftrightarrow> (\<forall>j. 0 < j \<and> j < length xs - k \<longrightarrow> P (xs ! (k + (j - 1))) (xs ! (k + j)))"
    using k by (simp add: successively_nth)
  also have "\<dots> \<longleftrightarrow> (\<forall>i. k < i \<and> i < length xs \<longrightarrow> P (xs ! (i - 1)) (xs ! i))"
  proof (intro iffI allI impI)
    fix i assume a: "\<forall>j. 0 < j \<and> j < length xs - k \<longrightarrow> P (xs ! (k + (j - 1))) (xs ! (k + j))" and i: "k < i \<and> i < length xs"
    from i have "0 < i - k \<and> i - k < length xs - k" by arith
    with a have "P (xs ! (k + (i - k - 1))) (xs ! (k + (i - k)))" by blast
    moreover from i have "k + (i - k - 1) = i - 1" "k + (i - k) = i" by arith+
    ultimately show "P (xs ! (i - 1)) (xs ! i)" by simp
  next
    fix j assume a: "\<forall>i. k < i \<and> i < length xs \<longrightarrow> P (xs ! (i - 1)) (xs ! i)" and j: "0 < j \<and> j < length xs - k"
    from j have "k < k + j \<and> k + j < length xs" by arith
    with a have "P (xs ! (k + j - 1)) (xs ! (k + j))" by blast
    moreover from j have "k + j - 1 = k + (j - 1)" by arith
    ultimately show "P (xs ! (k + (j - 1))) (xs ! (k + j))" by simp
  qed
  finally show ?thesis .
qed


lemma snd_tail_dropna:
  "0 < k \<Longrightarrow> map snd (tail k (dropna s)) =
     map Some (drop (length (valid_prices s) - nat k) (valid_prices s))"
  by (simp add: tail_def drop_map [symmetric] snd_dropna length_dropna)

lemma detector_unfold:
  "is_consecutive_down closes n =
     (\<not> int (length (dropna closes)) < n + 1 \<and>
      all_pd (lt_zero (dropna (diff (tail (n + 1) (dropna closes))))))"
  by (simp add: is_consecutive_down_def Let_def)

lemma detector_char:
  assumes n: "0 \<le> n"
  shows "is_consecutive_down closes n \<longleftrightarrow>
     nat n + 1 \<le> length (valid_prices closes) \<and>
     (\<forall>i. length (valid_prices closes) - nat n \<le> i \<and> i < length (valid_prices closes) \<longrightarrow>
          valid_prices closes ! i - valid_prices closes ! (i - 1) < 0)"
proof (cases "nat n + 1 \<le> length (valid_prices closes)")
  case False
  with n have "int (length (dropna closes)) < n + 1" by (simp add: length_dropna)
  with False show ?thesis by (simp add: detector_unfold)
next
  case True
  define vp where "vp = valid_prices closes"
  define k where "k = length vp - nat (n + 1)"
  from n True have len: "\<not> int (length (dropna closes)) < n + 1"
    by (simp add: length_dropna)
  from n have "map snd (tail (n + 1) (dropna closes)) = map Some (drop k vp)"
    by (simp add: snd_tail_dropna k_def vp_def)
  then have "all_pd (lt_zero (dropna (diff (tail (n + 1) (dropna closes))))) =
      successively (\<lambda>a b. b - a < 0) (drop k vp)"
    by (rule all_diff)
  also have "\<dots> \<longleftrightarrow> (\<forall>i. k < i \<and> i < length vp \<longrightarrow> vp ! i - vp ! (i - 1) < 0)"
    by (rule successively_drop_nth) (simp add: k_def)
  also have "\<dots> \<longleftrightarrow> (\<forall>i. length vp - nat n \<le> i \<and> i < length vp \<longrightarrow> vp ! i - vp ! (i - 1) < 0)"
  proof -
    from n True have "\<And>i. k < i \<longleftrightarrow> length vp - nat n \<le> i"
      unfolding k_def vp_def by arith
    then show ?thesis by simp
  qed
  finally show ?thesis using len True by (simp add: detector_unfold vp_def)
qed


text \<open>
  Claim C1. For a threshold \<open>n \<ge> 0\<close>, the detector answers true exactly when the
  series, once its missing values are dropped, has at least \<open>n + 1\<close> points and each of
  the \<open>n\<close> differences \<open>price i - price (i - 1)\<close> over its last \<open>n + 1\<close> points is
  strictly negative. So a series with fewer than \<open>n + 1\<close> valid points gives false (the
  function has no failing path), and a zero difference in the window gives false.
\<close>

theorem is_consecutive_down_iff_trailing_diffs_negative:
  assumes "0 \<le> n"
  shows "(is_consecutive_down closes n \<longleftrightarrow>
            nat n + 1 \<le> length (valid_prices closes) \<and>
            (\<forall>i. length (valid_prices closes) - nat n \<le> i \<and> i < length (valid_prices closes) \<longrightarrow>
                 valid_prices closes ! i - valid_prices closes ! (i - 1) < 0)) \<and>
         (length (valid_prices closes) < nat n + 1 \<longrightarrow> \<not> is_consecutive_down closes n) \<and>
         (\<forall>i. length (valid_prices closes) - nat n \<le> i \<and> i < length (valid_prices closes) \<and>
               valid_prices closes ! i - valid_prices closes ! (i - 1) = 0 \<longrightarrow>
               \<not> is_consecutive_down closes n)"
proof (intro conjI)
  show "is_consecutive_down closes n \<longleftrightarrow>
            nat n + 1 \<le> length (valid_prices closes) \<and>
            (\<forall>i. length (valid_prices closes) - nat n \<le> i \<and> i < length (valid_prices closes) \<longrightarrow>
                 valid_prices closes ! i - valid_prices closes ! (i - 1) < 0)"
    using assms by (rule detector_char)
  show "length (valid_prices closes) < nat n + 1 \<longrightarrow> \<not> is_consecutive_down closes n"
    by (simp add: detector_char [OF assms])
  show "\<forall>i. length (valid_prices closes) - nat n \<le> i \<and> i < length (valid_prices closes) \<and>
               valid_prices closes ! i - valid_prices closes ! (i - 1) = 0 \<longrightarrow>
               \<not> is_consecutive_down closes n"
  proof (intro allI impI notI)
    fix i
    assume i: "length (valid_prices closes) - nat n \<le> i \<and> i < length (valid_prices closes) \<and>
               valid_prices closes ! i - valid_prices closes ! (i - 1) = 0"
    assume "is_consecutive_down closes n"
    then have "\<forall>i. length (valid_prices closes) - nat n \<le> i \<and> i < length (valid_prices closes) \<longrightarrow>
                 valid_prices closes ! i - valid_prices closes ! (i - 1) < 0"
      by (simp add: detector_char [OF assms])
    with i have "valid_prices closes ! i - valid_prices closes ! (i - 1) < 0" by blast
    with i show False by simp
  qed
qed

lemmas detector_eval =
  is_consecutive_down_def dropna_def tail_def lt_zero_def all_pd_def

theorem is_consecutive_down_iff_trailing_diffs_negative_witness:
  "(0::int) \<le> 2 \<and>
   is_consecutive_down [(11::nat, Some 10), (12, Some 9), (13, None), (14, Some 8)] 2 \<and>
   nat 2 + 1 \<le> length (valid_prices [(11::nat, Some 10), (12, Some 9), (13, None), (14, Some 8)])"
proof -
  have n: "(0::int) \<le> 2" by simp
  have e: "is_consecutive_down [(11::nat, Some 10), (12, Some 9), (13, None), (14, Some 8)] 2"
    by (simp add: detector_eval)
  from is_consecutive_down_iff_trailing_diffs_negative
      [OF n, of "[(11::nat, Some 10), (12, Some 9), (13, None), (14, Some 8)]"] e n
  show ?thesis by blast
qed

text \<open>
  A negative threshold is not a count of differences, and the characterisation above
  does not speak about it. There \<^verbatim>\<open>tail\<close> drops leading rows instead of keeping
  trailing ones: with \<open>n = -2\<close> the detector tests every difference but the first.
\<close>

lemma is_consecutive_down_negative_threshold:
  "\<not> is_consecutive_down [(11::nat, Some 1), (12, Some 2), (13, Some 3)] (- 2) \<and>
   is_consecutive_down [(11::nat, Some 1), (12, Some 3), (13, Some 2)] (- 2)"
  by (simp add: detector_eval)

lemma short_iff_tail:
  "int (length v) < k \<longleftrightarrow> 0 < k \<and> int (length (tail k v)) < k"
  by (auto simp: tail_def)

text \<open>
  Claim C2. For every threshold \<open>n\<close>, two series whose last \<open>n + 1\<close> valid points
  (what \<^verbatim>\<open>tail(n + 1)\<close> returns after \<^verbatim>\<open>dropna\<close>) are the same get the same
  answer from the detector: the rows before that window play no part in it.
\<close>

theorem detector_depends_on_trailing_window_only:
  assumes "tail (n + 1) (dropna s1) = tail (n + 1) (dropna s2)"
  shows "is_consecutive_down s1 n = is_consecutive_down s2 n"
proof -
  have "int (length (dropna s1)) < n + 1 \<longleftrightarrow> int (length (dropna s2)) < n + 1"
    using short_iff_tail [of "dropna s1" "n + 1"] short_iff_tail [of "dropna s2" "n + 1"] assms
    by simp
  with assms show ?thesis by (simp add: detector_unfold)
qed

theorem detector_depends_on_trailing_window_only_witness:
  "tail (1 + 1) (dropna [(11::nat, Some 1), (12, Some 5), (13, Some 4)]) =
   tail (1 + 1) (dropna [(10::nat, Some 7), (11, None), (12, Some 5), (13, Some 4)]) \<and>
   is_consecutive_down [(11::nat, Some 1), (12, Some 5), (13, Some 4)] 1 =
   is_consecutive_down [(10::nat, Some 7), (11, None), (12, Some 5), (13, Some 4)] 1"
proof -
  have t: "tail (1 + 1) (dropna [(11::nat, Some 1), (12, Some 5), (13, Some 4)]) =
   tail (1 + 1) (dropna [(10::nat, Some 7), (11, None), (12, Some 5), (13, Some 4)])"
    by (simp add: dropna_def tail_def)
  from t detector_depends_on_trailing_window_only [OF t] show ?thesis by (rule conjI)
qed

text \<open>
  Claim C10. For \<open>n = 0\<close> the detector answers true on every series with at least one
  valid point: there is no difference to check.
\<close>

theorem detector_zero_threshold:
  assumes "valid_prices s \<noteq> []"
  shows "is_consecutive_down s 0"
proof -
  from assms have "nat 0 + 1 \<le> length (valid_prices s)"
    by (cases "valid_prices s") simp_all
  then show ?thesis by (simp add: detector_char)
qed

theorem detector_zero_threshold_witness:
  "valid_prices [(11::nat, None), (12, Some 5)] \<noteq> [] \<and>
   is_consecutive_down [(11::nat, None), (12, Some 5)] 0"
proof -
  have v: "valid_prices [(11::nat, None), (12, Some 5)] \<noteq> []"
    by (simp add: valid_prices_def List.map_filter_simps)
  from v detector_zero_threshold [OF v] show ?thesis by (rule conjI)
qed

lemma detector_st:
  "is_consecutive_down_st closes n h = (r, h') \<Longrightarrow>
     r = is_consecutive_down (objs h closes) n \<and>
     used h \<le> used h' \<and> (\<forall>a. a < used h \<longrightarrow> objs h' a = objs h a)"
  by (auto simp: is_consecutive_down_st_def is_consecutive_down_def alloc_def Let_def
      split: if_splits)

text \<open>
  Claim C9. On the store, calling the detector a second time on the same series object
  with the same \<open>n\<close> gives the answer of the first call, which is the answer of the
  function on values; the call leaves the input object, and every object that existed
  before it, as it was.
\<close>

theorem detector_twice_same_result_input_unchanged:
  assumes "closes < used h"
  shows "fst (is_consecutive_down_st closes n (snd (is_consecutive_down_st closes n h))) =
           fst (is_consecutive_down_st closes n h) \<and>
         fst (is_consecutive_down_st closes n h) = is_consecutive_down (objs h closes) n \<and>
         objs (snd (is_consecutive_down_st closes n h)) closes = objs h closes \<and>
         (\<forall>a. a < used h \<longrightarrow> objs (snd (is_consecutive_down_st closes n h)) a = objs h a)"
proof -
  obtain r1 h1 where 1: "is_consecutive_down_st closes n h = (r1, h1)"
    by (cases "is_consecutive_down_st closes n h")
  obtain r2 h2 where 2: "is_consecutive_down_st closes n h1 = (r2, h2)"
    by (cases "is_consecutive_down_st closes n h1")
  from detector_st [OF 1] have a: "r1 = is_consecutive_down (objs h closes) n"
    "\<forall>a. a < used h \<longrightarrow> objs h1 a = objs h a" by simp_all
  from detector_st [OF 2] have b: "r2 = is_consecutive_down (objs h1 closes) n" by simp
  from a b assms show ?thesis by (simp add: 1 2)
qed

theorem detector_twice_same_result_input_unchanged_witness:
  "(0::nat) < used \<lparr>objs = (\<lambda>_. [])(0 := [(11::nat, Some 3), (12, Some 2)]), used = 1\<rparr> \<and>
   fst (is_consecutive_down_st 0 1
          (snd (is_consecutive_down_st 0 1
             \<lparr>objs = (\<lambda>_. [])(0 := [(11::nat, Some 3), (12, Some 2)]), used = 1\<rparr>))) =
   fst (is_consecutive_down_st 0 1
          \<lparr>objs = (\<lambda>_. [])(0 := [(11::nat, Some 3), (12, Some 2)]), used = 1\<rparr>) \<and>
   objs (snd (is_consecutive_down_st 0 1
          \<lparr>objs = (\<lambda>_. [])(0 := [(11::nat, Some 3), (12, Some 2)]), used = 1\<rparr>)) 0 =
   [(11::nat, Some 3), (12, Some 2)]"
proof -
  have u: "(0::nat) < used \<lparr>objs = (\<lambda>_. [])(0 := [(11::nat, Some 3), (12, Some 2)]), used = 1\<rparr>"
    by simp
  from u detector_twice_same_result_input_unchanged [OF u, of 1] show ?thesis by simp
qed


section \<open>Properties of the report builder\<close>

text \<open>
  Claim C3. The report builder returns the absent value \<open>None\<close> for the empty match
  list, and a report for every match list with at least one entry.
\<close>

theorem build_email_html_absent_iff_no_match:
  "build_email_html strftime fmt [] k = None \<and>
   (\<exists>html. build_email_html strftime fmt (m # ms) k = Some html)"
  by (simp add: build_email_html_def Let_def)

section \<open>Properties of the normalizer\<close>

lemma keys_collect_closes:
  "fst ` set (collect_closes cols ts m) =
     fst ` set m \<union> {t \<in> set ts. cols (t, ''Close'') \<noteq> None}"
  by (induction ts arbitrary: m) (auto simp: dom_update split: option.splits)

lemma distinct_collect_closes:
  "distinct (map fst m) \<Longrightarrow> distinct (map fst (collect_closes cols ts m))"
  by (induction ts arbitrary: m) (auto simp: distinct_update split: option.splits)

text \<open>
  Claim C4. For a combined-shape frame the normalizer does not fail, and the keys of
  its mapping are exactly the requested tickers that have a \<^verbatim>\<open>Close\<close> column in
  the frame; a requested ticker without one is left out.
\<close>

theorem closes_by_ticker_multi_keys:
  "\<exists>m. closes_by_ticker tickers (MultiFrame cols) = Inr m \<and>
       distinct (map fst m) \<and>
       fst ` set m = {t \<in> set tickers. cols (t, ''Close'') \<noteq> None}"
  by (simp add: closes_by_ticker_def keys_collect_closes distinct_collect_closes)

text \<open>A requested ticker without a \<^verbatim>\<open>Close\<close> column, here \<open>XYZ\<close>, is left out.\<close>

lemma closes_by_ticker_omits_ticker_without_close:
  "closes_by_ticker [''AAPL'', ''XYZ'']
     (MultiFrame [(''AAPL'', ''Close'') \<mapsto> [(11::nat, Some 3), (12, None), (13, Some 2)]]) =
     Inr [(''AAPL'', [(11, Some 3), (13, Some 2)])]"
  by (simp add: closes_by_ticker_def dropna_def)

text \<open>
  Claim C5. For a single-shape frame with a \<^verbatim>\<open>Close\<close> column and one requested
  ticker, the mapping has exactly one entry: the ticker, with the frame's closing
  prices (missing values dropped).
\<close>

theorem closes_by_ticker_single:
  assumes "cols ''Close'' = Some col"
  shows "closes_by_ticker [s] (FlatFrame cols) = Inr [(s, dropna col)]"
  using assms by (simp add: closes_by_ticker_def)

theorem closes_by_ticker_single_witness:
  "[''Close'' \<mapsto> [(11::nat, Some (3::real)), (12, None)]] ''Close'' =
     Some [(11::nat, Some 3), (12, None)] \<and>
   closes_by_ticker [''AAPL''] (FlatFrame [''Close'' \<mapsto> [(11::nat, Some 3), (12, None)]]) =
     Inr [(''AAPL'', [(11, Some 3)])]"
proof -
  have c: "[''Close'' \<mapsto> [(11::nat, Some (3::real)), (12, None)]] ''Close'' =
     Some [(11::nat, Some 3), (12, None)]"
    by simp
  from c closes_by_ticker_single
    [where cols = "[''Close'' \<mapsto> [(11::nat, Some (3::real)), (12, None)]]"
       and col = "[(11::nat, Some 3), (12, None)]" and s = "''AAPL''"]
  show ?thesis by (simp add: dropna_def)
qed

lemma no_missing_dropna: "no_missing (dropna s)"
  by (simp add: no_missing_def dropna_def list_all_iff)

lemma set_update_subset: "set (AList.update k v al) \<subseteq> insert (k, v) (set al)"
  by (induction al) auto

lemma no_missing_collect_closes:
  "\<forall>p \<in> set m. no_missing (snd p) \<Longrightarrow> \<forall>p \<in> set (collect_closes cols ts m). no_missing (snd p)"
proof (induction ts arbitrary: m)
  case Nil
  then show ?case by simp
next
  case (Cons t ts)
  show ?case
  proof (cases "cols (t, ''Close'')")
    case None
    with Cons show ?thesis by simp
  next
    case (Some col)
    have "\<forall>p \<in> set (AList.update t (dropna col) m). no_missing (snd p)"
      using set_update_subset [of t "dropna col" m] Cons.prems no_missing_dropna by fastforce
    from Cons.IH [OF this] Some show ?thesis by simp
  qed
qed

lemma set_collect_matches:
  "set (collect_matches n xs acc) \<subseteq> set xs \<union> set acc"
  by (induction n xs acc rule: collect_matches.induct) auto

text \<open>
  Claim C8. When the normalizer returns a mapping, none of its series has a missing
  value; so neither has any series handed to the detector (all of the mapping) or to
  the report builder (the matches).
\<close>

theorem normalized_series_have_no_missing_values:
  assumes "closes_by_ticker tickers data = Inr m"
  shows "(\<forall>p \<in> set m. no_missing (snd p)) \<and> (\<forall>p \<in> set (main_matches m n). no_missing (snd p))"
proof -
  have m: "\<forall>p \<in> set m. no_missing (snd p)"
  proof (cases data)
    case (MultiFrame cols)
    with assms have "m = collect_closes cols tickers []" by (simp add: closes_by_ticker_def)
    then show ?thesis using no_missing_collect_closes [of "[]" cols tickers] by simp
  next
    case (FlatFrame cols)
    with assms show ?thesis
      by (auto simp: closes_by_ticker_def no_missing_dropna split: option.splits list.splits)
  qed
  moreover have "set (main_matches m n) \<subseteq> set m"
    using set_collect_matches [of n m "[]"] by (simp add: main_matches_def)
  ultimately show ?thesis by blast
qed


theorem normalized_series_have_no_missing_values_witness:
  "closes_by_ticker [''AAPL'', ''XYZ'']
     (MultiFrame [(''AAPL'', ''Close'') \<mapsto> [(11::nat, Some 3), (12, None), (13, Some 2)]]) =
     Inr [(''AAPL'', [(11, Some 3), (13, Some 2)])] \<and>
   no_missing [(11::nat, Some 3), (13, Some 2)]"
proof -
  have c: "closes_by_ticker [''AAPL'', ''XYZ'']
     (MultiFrame [(''AAPL'', ''Close'') \<mapsto> [(11::nat, Some 3), (12, None), (13, Some 2)]]) =
     Inr [(''AAPL'', [(11, Some 3), (13, Some 2)])]"
    by (simp add: closes_by_ticker_def dropna_def)
  from c normalized_series_have_no_missing_values [OF c, of 1] show ?thesis by simp
qed

section \<open>Properties of the ticker set loader\<close>

lemma strip_empty_iff: "strip s = [] \<longleftrightarrow> (\<forall>c \<in> set s. isspace c)"
proof
  assume "\<forall>c \<in> set s. isspace c"
  then show "strip s = []" by (auto simp: strip_def dest: set_dropWhileD)
next
  assume "strip s = []"
  then have "dropWhile isspace (rev (dropWhile isspace s)) = []" by (simp add: strip_def)
  then have all: "\<forall>c \<in> set (dropWhile isspace s). isspace c"
    by (simp add: dropWhile_eq_Nil_conv)
  have "dropWhile isspace s = []"
  proof (rule ccontr)
    assume ne: "dropWhile isspace s \<noteq> []"
    then have "\<not> isspace (hd (dropWhile isspace s))" by (rule hd_dropWhile)
    moreover from ne have "hd (dropWhile isspace s) \<in> set (dropWhile isspace s)" by simp
    ultimately show False using all by blast
  qed
  then show "\<forall>c \<in> set s. isspace c" by (simp add: dropWhile_eq_Nil_conv)
qed

lemma set_split_on: "t \<in> set (split_on sep s) \<Longrightarrow> set t \<subseteq> set s"
proof (induction s arbitrary: t)
  case Nil
  then show ?case by simp
next
  case (Cons c cs)
  show ?case
  proof (cases "split_on sep cs")
    case Nil
    with Cons.prems show ?thesis by (auto split: if_splits)
  next
    case (Cons w ws)
    have w: "set w \<subseteq> set cs" using Cons.IH [of w] Cons by simp
    have ws: "\<And>u. u \<in> set ws \<Longrightarrow> set u \<subseteq> set cs" using Cons.IH Cons by simp
    from Cons.prems Cons w ws show ?thesis by (auto split: if_splits)
  qed
qed

lemma explicit_symbols_comprehension:
  "[strip t. t \<leftarrow> ts, strip t \<noteq> []] = filter (\<lambda>t. t \<noteq> []) (map strip ts)"
  by (induction ts) simp_all

lemma file_symbols_comprehension:
  "[strip l. l \<leftarrow> ls, strip l \<noteq> [] \<and> \<not> startswith l p] =
     map strip (filter (\<lambda>l. \<not> (strip l = [] \<or> startswith l p)) ls)"
  by (induction ls) simp_all

lemma sorted_set_nonempty:
  "xs \<noteq> [] \<Longrightarrow> sort (remdups xs) \<noteq> []"
proof
  assume "xs \<noteq> []" and "sort (remdups xs) = []"
  then have "set (sort (remdups xs)) = {}" by simp
  then have "set xs = {}" by simp
  with \<open>xs \<noteq> []\<close> show False by simp
qed

lemma blank_input_no_symbols:
  assumes "strip cli = []"
  shows "explicit_symbols cli = []"
proof -
  have "strip t = []" if "t \<in> set (split_on (CHR '','') cli)" for t
  proof -
    from that have "set t \<subseteq> set cli" by (rule set_split_on)
    with assms show ?thesis by (auto simp: strip_empty_iff)
  qed
  then show ?thesis by (auto simp: explicit_symbols_def filter_empty_conv)
qed

text \<open>The list the loader resolves, in the words of the specification.\<close>

lemma resolved_tickers_unfold:
  "resolved_tickers cli f =
     (if strip cli \<noteq> [] then Inr (explicit_symbols cli)
      else (case f of
              Readable txt \<Rightarrow> Inr (file_symbols txt)
            | Unreadable e \<Rightarrow> Inl e
            | Absent \<Rightarrow> Inr default_tickers))"
  by (simp add: resolved_tickers_def explicit_symbols_def file_symbols_def
      explicit_symbols_comprehension file_symbols_comprehension cong: tickers_txt.case_cong)

lemma load_tickers_Inr:
  "load_tickers cli f = Inr ts \<longleftrightarrow>
     (\<exists>src. resolved_tickers cli f = Inr src \<and> src \<noteq> [] \<and> ts = sort (remdups src))"
  by (auto simp: load_tickers_def split: sum.splits)

lemma resolved_is_spec_resolved:
  assumes "resolved_tickers cli f = Inr src" and "src \<noteq> []"
  shows "spec_resolved cli f = src"
proof (cases "strip cli = []")
  case True
  then have "explicit_symbols cli = []" by (rule blank_input_no_symbols)
  with assms True show ?thesis
    by (cases f) (simp_all add: resolved_tickers_unfold spec_resolved_def)
next
  case False
  with assms show ?thesis by (auto simp: resolved_tickers_unfold spec_resolved_def)
qed

text \<open>
  Claim C6. Whenever the loader returns, its result is non-empty, free of duplicates and
  in ascending lexicographic order, and holds exactly the symbols of the source the
  precedence selects: the explicit input when it yields a token, else the symbol file
  when it exists, else the default set.
\<close>

theorem load_tickers_result:
  assumes "load_tickers cli f = Inr ts"
  shows "ts \<noteq> [] \<and> distinct ts \<and> sorted ts \<and> set ts = set (spec_resolved cli f)"
proof -
  from assms obtain src where src: "resolved_tickers cli f = Inr src" "src \<noteq> []"
    "ts = sort (remdups src)"
    by (auto simp: load_tickers_Inr)
  from src(1,2) have "spec_resolved cli f = src" by (rule resolved_is_spec_resolved)
  with src show ?thesis by (auto dest: sorted_set_nonempty)
qed

theorem load_tickers_result_witness:
  "load_tickers '' msft , aapl,,msft '' Absent = Inr [''aapl'', ''msft''] \<and>
   [''aapl'', ''msft''] \<noteq> [] \<and> distinct [''aapl'', ''msft''] \<and> sorted [''aapl'', ''msft''] \<and>
   set [''aapl'', ''msft''] = set (spec_resolved '' msft , aapl,,msft '' Absent)"
proof -
  have l: "load_tickers '' msft , aapl,,msft '' Absent = Inr [''aapl'', ''msft'']"
    by (simp add: load_tickers_def resolved_tickers_def strip_def isspace_def)
  from l load_tickers_result [OF l] show ?thesis by (rule conjI)
qed

text \<open>
  When the selected source yields nothing the loader fails; it does not go on to a later
  source. The list is empty exactly for an explicit input that is not blank and has no
  token left after trimming, and for a blank explicit input with a readable symbol file
  without a symbol line.
\<close>

lemma resolved_tickers_empty_iff:
  "resolved_tickers cli f = Inr [] \<longleftrightarrow>
     strip cli \<noteq> [] \<and> explicit_symbols cli = [] \<or>
     strip cli = [] \<and> (\<exists>txt. f = Readable txt \<and> file_symbols txt = [])"
  by (cases f) (auto simp: resolved_tickers_unfold default_tickers_def)

text \<open>
  With a blank explicit input, which is the default of the command line, and a
  \<^verbatim>\<open>tickers.txt\<close> that exists and cannot be opened, the loader raises the error of
  \<^verbatim>\<open>open\<close>: it raises although no empty symbol set was resolved, and what it raises is
  not the configuration error. The run ends with a traceback and status 1.
\<close>

theorem load_tickers_raises_on_unreadable_file:
  "load_tickers [] (Unreadable OSError) = Inl OSError \<and>
   resolved_tickers [] (Unreadable OSError) \<noteq> Inr [] \<and>
   OSError \<noteq> SystemExit ''No tickers provided.'' \<and>
   main [] (Unreadable OSError) silent = ([Traceback OSError], 1)"
  by (simp add: main_def load_tickers_def resolved_tickers_def strip_def)

text \<open>
  Claim C7, amended. When the resolved symbol set is empty, the loader fails with the
  configuration error: the run ends with status 1 and the diagnostic
  \<^verbatim>\<open>No tickers provided.\<close> on the error stream, and no fetch is attempted. On every
  other input on which \<^verbatim>\<open>tickers.txt\<close>, when the loader consults it (the explicit
  input is blank and the file exists), can be opened and read, the loader does not
  raise, and the fetch for the returned symbols is the first event of the run.
\<close>

theorem load_tickers_fails_iff_resolved_empty:
  assumes "strip cli \<noteq> [] \<or> (\<forall>e. f \<noteq> Unreadable e)"
  shows "(load_tickers cli f = Inl (SystemExit ''No tickers provided.'') \<longleftrightarrow>
            resolved_tickers cli f = Inr []) \<and>
         (resolved_tickers cli f = Inr [] \<longrightarrow>
            main cli f rest = ([Stderr ''No tickers provided.''], 1) \<and>
            \<not> fetch_attempted (fst (main cli f rest))) \<and>
         (resolved_tickers cli f \<noteq> Inr [] \<longrightarrow>
            (\<exists>ts. load_tickers cli f = Inr ts \<and>
                  main cli f rest = (Download ts # fst (rest ts), snd (rest ts))))"
proof -
  from assms have "\<exists>src. resolved_tickers cli f = Inr src"
    by (cases f) (simp_all add: resolved_tickers_unfold)
  then obtain src where src: "resolved_tickers cli f = Inr src" ..
  show ?thesis
  proof (cases "src = []")
    case True
    with src show ?thesis
      by (simp add: load_tickers_def main_def fetch_attempted_def)
  next
    case False
    with src show ?thesis
      by (simp add: load_tickers_def main_def split_beta)
  qed
qed

theorem load_tickers_fails_iff_resolved_empty_witness:
  "strip '','' \<noteq> [] \<and>
   resolved_tickers '','' Absent = Inr [] \<and>
   load_tickers '','' Absent = Inl (SystemExit ''No tickers provided.'') \<and>
   main '','' Absent silent = ([Stderr ''No tickers provided.''], 1) \<and>
   \<not> fetch_attempted (fst (main '','' Absent silent))"
proof -
  have s: "strip '','' \<noteq> []" by (simp add: strip_def isspace_def)
  then have h: "strip '','' \<noteq> [] \<or> (\<forall>e. Absent \<noteq> Unreadable e)" by simp
  have r: "resolved_tickers '','' Absent = Inr []"
    by (simp add: resolved_tickers_def strip_def isspace_def)
  from s r load_tickers_fails_iff_resolved_empty [OF h, of silent]
  show ?thesis by blast
qed

end
